theory Spec2Isabelle
  imports Main
begin

section \<open>The agent client of gpgsm (call-agent)\<close>

text \<open>
  The functions of \<^verbatim>\<open>call-agent.c\<close> are embedded as HOL functions. A C string is the list
  of its characters before the terminating Nul, so the end of the list plays the part of the
  Nul; a pointer that may be \<^verbatim>\<open>NULL\<close> is an \<open>option\<close>. A return code is
  \<open>gpg_error option\<close>, with \<open>None\<close> for 0. Sizes (\<^verbatim>\<open>size_t\<close>) are natural numbers;
  a conversion to a narrower type and a sum with a number read from the wire are written
  with their wrap-around, for 32-bit \<^verbatim>\<open>unsigned int\<close> and 64-bit \<^verbatim>\<open>unsigned long\<close>.
\<close>

subsection \<open>Error codes\<close>

datatype gpg_error =
    GPG_ERR_GENERAL
  | GPG_ERR_INV_VALUE
  | GPG_ERR_INV_SEXP
  | GPG_ERR_INV_ARG
  | GPG_ERR_DIGEST_ALGO
  | GPG_ERR_INTERNAL
  | GPG_ERR_NO_DATA
  | GPG_ERR_ENOMEM
  | GPG_ERR_NO_AGENT
  | GPG_ERR_ASS_CANCELED
  | GPG_ERR_ASS_NO_DATA_CB
  | GPG_ERR_ASS_NO_INQUIRE_CB
  | GPG_ERR_CODE nat  \<comment> \<open>any other code, as reported by the agent or a collaborator\<close>

type_synonym rc = "gpg_error option"

text \<open>The result of a function that aborts the process when an assertion fails.\<close>

datatype 'a outcome = Returns 'a | Aborts

subsection \<open>Characters and numerals\<close>

definition spacep :: "char \<Rightarrow> bool" where
  "spacep c = (c = CHR '' '' \<or> c = CHR 0x09)"

definition digitp :: "char \<Rightarrow> bool" where
  "digitp c = (48 \<le> (of_char c :: nat) \<and> (of_char c :: nat) \<le> 57)"


definition isspace :: "char \<Rightarrow> bool" where
  "isspace c = (c = CHR '' '' \<or> (9 \<le> (of_char c :: nat) \<and> (of_char c :: nat) \<le> 13))"

definition atoi_1 :: "char \<Rightarrow> nat" where
  "atoi_1 c = of_char c - 48"

definition digit_char :: "nat \<Rightarrow> char" where
  "digit_char k = ''0123456789ABCDEF'' ! (k mod 16)"

text \<open>The conversion \<^verbatim>\<open>%u\<close> of \<^verbatim>\<open>printf\<close>.\<close>

fun dec_nat :: "nat \<Rightarrow> string" where
  "dec_nat n = (if n < 10 then [digit_char n] else dec_nat (n div 10) @ [digit_char (n mod 10)])"

declare dec_nat.simps [simp del]

text \<open>The conversion \<^verbatim>\<open>%d\<close>.\<close>

definition dec_int :: "int \<Rightarrow> string" where
  "dec_int i = (if i < 0 then CHR ''-'' # dec_nat (nat (- i)) else dec_nat (nat i))"

text \<open>The conversion \<^verbatim>\<open>%02X\<close> of one byte, and the hex dump of a digest.\<close>

definition hex_byte :: "char \<Rightarrow> string" where
  "hex_byte c = [digit_char ((of_char c :: nat) div 16), digit_char ((of_char c :: nat) mod 16)]"

definition hex_dump :: "string \<Rightarrow> string" where
  "hex_dump digest = concat (map hex_byte digest)"

text \<open>
  \<^verbatim>\<open>ASSUAN_LINELENGTH\<close> comes from the header of libassuan, which defines it as 1002; it is
  the dimension of every \<^verbatim>\<open>line\<close> array.
\<close>

definition ASSUAN_LINELENGTH :: nat where
  "ASSUAN_LINELENGTH = 1002"

text \<open>\<^verbatim>\<open>snprintf (line, DIM (line), ...)\<close> keeps at most \<^verbatim>\<open>DIM (line) - 1\<close> characters.\<close>

definition snprintf_line :: "string \<Rightarrow> string" where
  "snprintf_line s = take (ASSUAN_LINELENGTH - 1) s"

text \<open>
  Modelled from the spec: \<^verbatim>\<open>has_leading_keyword\<close> lives in the common string helpers,
  which are not among the sources. A line is keyword-led when it starts with the keyword
  and the keyword ends there or is followed by a blank; the result is the rest of the line
  after the blanks.
\<close>

definition has_leading_keyword :: "string \<Rightarrow> string \<Rightarrow> string option" where
  "has_leading_keyword line keyword =
     (let n = length keyword in
      if take n line = keyword \<and> (drop n line = [] \<or> spacep (hd (drop n line)))
      then Some (dropWhile spacep (drop n line))
      else None)"

subsection \<open>The agent, the collaborators and the state of the process\<close>

text \<open>What the agent sends while a command is being served, before its final answer.\<close>

datatype response = Data string | Inquire string | Status string

text \<open>
  Everything outside this file that the functions call is a field of the environment:
  the outcome of connecting to the agent, the agent's answer to a command line given the
  lines sent before it, and the collaborators and allocators.
\<close>

record env =
  opt_autostart :: bool
  start_new_gpg_agent :: rc
  agent_reply :: "string list \<Rightarrow> string \<Rightarrow> response list \<times> rc"
  gpgsm_proxy_pinentry_notify :: "string \<Rightarrow> rc"
  sm_static_passphrase :: "string option"
  assuan_send_data :: "string \<Rightarrow> rc"
  xtrymalloc_ok :: "nat \<Rightarrow> bool"
  membuf_ok :: bool

text \<open>
  The state: the static \<^verbatim>\<open>agent_ctx\<close> (connected or \<^verbatim>\<open>NULL\<close>), the static
  \<^verbatim>\<open>shown\<close> of \<^verbatim>\<open>start_agent\<close>, \<^verbatim>\<open>ctrl->agent_seen\<close>, and a trace of what
  the process did towards the outside: connection attempts, command lines sent, data
  returned to inquiries (with its confidential mark) and log lines.
  \<^verbatim>\<open>start_new_gpg_agent\<close> is taken to set \<^verbatim>\<open>agent_ctx\<close> exactly when it succeeds.
\<close>

record world =
  agent_ctx :: bool
  shown :: bool
  agent_seen :: bool
  connect_attempts :: nat
  sent :: "string list"
  inquiry_data :: "(bool \<times> string) list"
  logged :: "string list"

definition log_msg :: "string \<Rightarrow> world \<Rightarrow> world" where
  "log_msg m w = w\<lparr>logged := logged w @ [m]\<rparr>"

definition start_agent :: "env \<Rightarrow> world \<Rightarrow> rc \<times> world" where
  "start_agent e w =
     (let (rc, w1) =
        (if agent_ctx w then (None, w)
         else
           (let rc = start_new_gpg_agent e;
                w' = w\<lparr>agent_ctx := (rc = None), connect_attempts := connect_attempts w + 1\<rparr>
            in if \<not> opt_autostart e \<and> rc = Some GPG_ERR_NO_AGENT \<and> \<not> shown w'
               then (rc, log_msg ''no gpg-agent running in this session'' (w'\<lparr>shown := True\<rparr>))
               else (rc, w')))
      in (rc, w1\<lparr>agent_seen := True\<rparr>))"

subsection \<open>The default inquiry callback\<close>

definition default_inq_cb :: "env \<Rightarrow> world \<Rightarrow> string \<Rightarrow> rc \<times> world" where
  "default_inq_cb e w line =
     (if has_leading_keyword line ''PINENTRY_LAUNCHED'' \<noteq> None then
        (let err = gpgsm_proxy_pinentry_notify e line
         in (err, if err \<noteq> None
                  then log_msg ''failed to proxy PINENTRY_LAUNCHED inquiry to client'' w
                  else w))
      else if (has_leading_keyword line ''PASSPHRASE'' \<noteq> None
               \<or> has_leading_keyword line ''NEW_PASSPHRASE'' \<noteq> None)
              \<and> sm_static_passphrase e \<noteq> None then
        (case sm_static_passphrase e of
           Some s \<Rightarrow> (assuan_send_data e s, w\<lparr>inquiry_data := inquiry_data w @ [(False, s)]\<rparr>)
         | None \<Rightarrow> (None, w))
      else (None, log_msg (''ignoring gpg-agent inquiry '' @ line) w))"

subsection \<open>One transaction with the agent\<close>

type_synonym data_cb = "string \<Rightarrow> string \<Rightarrow> rc \<times> string"
type_synonym inq_cb = "world \<Rightarrow> string \<Rightarrow> rc \<times> world"
type_synonym 's status_cb = "'s \<Rightarrow> string \<Rightarrow> rc \<times> 's"

text \<open>The data callback that collects the result bytes in a membuf.\<close>

definition put_membuf_cb :: data_cb where
  "put_membuf_cb d chunk = (None, d @ chunk)"

text \<open>
  Modelled from the spec: \<^verbatim>\<open>assuan_transact\<close> belongs to libassuan, which is not among
  the sources. The engine sends the command line, then takes what the agent sends in the
  order of arrival: result bytes go to the data sink, an inquiry to the inquiry handler, a
  status line to the status handler; the first handler that reports an error ends the
  transaction with that error; otherwise the agent's final answer is the result. A status
  line without a handler is skipped; data or an inquiry without a handler is an error.
\<close>

fun transact_loop ::
  "data_cb option \<Rightarrow> inq_cb option \<Rightarrow> 's status_cb option \<Rightarrow> rc \<Rightarrow> response list \<Rightarrow>
   world \<Rightarrow> string \<Rightarrow> 's \<Rightarrow> rc \<times> world \<times> string \<times> 's" where
  "transact_loop dcb icb scb fin [] w d s = (fin, w, d, s)"
| "transact_loop dcb icb scb fin (Data chunk # rs) w d s =
     (case dcb of
        None \<Rightarrow> (Some GPG_ERR_ASS_NO_DATA_CB, w, d, s)
      | Some f \<Rightarrow>
          (case f d chunk of
             (None, d') \<Rightarrow> transact_loop dcb icb scb fin rs w d' s
           | (Some err, d') \<Rightarrow> (Some err, w, d', s)))"
| "transact_loop dcb icb scb fin (Inquire line # rs) w d s =
     (case icb of
        None \<Rightarrow> (Some GPG_ERR_ASS_NO_INQUIRE_CB, w, d, s)
      | Some f \<Rightarrow>
          (case f w line of
             (None, w') \<Rightarrow> transact_loop dcb icb scb fin rs w' d s
           | (Some err, w') \<Rightarrow> (Some err, w', d, s)))"
| "transact_loop dcb icb scb fin (Status line # rs) w d s =
     (case scb of
        None \<Rightarrow> transact_loop dcb icb scb fin rs w d s
      | Some f \<Rightarrow>
          (case f s line of
             (None, s') \<Rightarrow> transact_loop dcb icb scb fin rs w d s'
           | (Some err, s') \<Rightarrow> (Some err, w, d, s')))"

definition assuan_transact ::
  "env \<Rightarrow> string \<Rightarrow> data_cb option \<Rightarrow> inq_cb option \<Rightarrow> 's status_cb option \<Rightarrow>
   world \<Rightarrow> string \<Rightarrow> 's \<Rightarrow> rc \<times> world \<times> string \<times> 's" where
  "assuan_transact e line dcb icb scb w d s =
     (case agent_reply e (sent w) line of
        (rs, fin) \<Rightarrow> transact_loop dcb icb scb fin rs (w\<lparr>sent := sent w @ [line]\<rparr>) d s)"

text \<open>A transaction with all six callback arguments \<^verbatim>\<open>NULL\<close>.\<close>

definition transact_plain :: "env \<Rightarrow> string \<Rightarrow> world \<Rightarrow> rc \<times> world" where
  "transact_plain e line w =
     (case assuan_transact e line None None (None :: unit status_cb option) w [] () of
        (r, w', _, _) \<Rightarrow> (r, w'))"

text \<open>A transaction with only the default inquiry callback.\<close>

definition transact_inq :: "env \<Rightarrow> string \<Rightarrow> world \<Rightarrow> rc \<times> world" where
  "transact_inq e line w =
     (case assuan_transact e line None (Some (default_inq_cb e))
             (None :: unit status_cb option) w [] () of
        (r, w', _, _) \<Rightarrow> (r, w'))"

text \<open>The idiom \<^verbatim>\<open>rc = ...; if (rc) return rc;\<close>.\<close>

definition or_return :: "rc \<times> world \<Rightarrow> (world \<Rightarrow> (gpg_error + 'a) \<times> world) \<Rightarrow> (gpg_error + 'a) \<times> world" where
  "or_return m f = (case m of (Some err, w) \<Rightarrow> (Inl err, w) | (None, w) \<Rightarrow> f w)"

text \<open>The optional \<^verbatim>\<open>SETKEYDESC\<close> command.\<close>

definition setkeydesc :: "env \<Rightarrow> string option \<Rightarrow> world \<Rightarrow> rc \<times> world" where
  "setkeydesc e desc w =
     (case desc of
        None \<Rightarrow> (None, w)
      | Some d \<Rightarrow> transact_plain e (snprintf_line (''SETKEYDESC '' @ d)) w)"

text \<open>
  \<^verbatim>\<open>get_membuf\<close> hands out the collected bytes, or \<^verbatim>\<open>NULL\<close> when the membuf ran out
  of memory.
\<close>

definition get_membuf :: "env \<Rightarrow> string \<Rightarrow> string option" where
  "get_membuf e d = (if membuf_ok e then Some d else None)"

subsection \<open>Canonical S-expressions\<close>

text \<open>
  Modelled from the spec: \<^verbatim>\<open>gcry_sexp_canon_len\<close> belongs to libgcrypt, which is not
  among the sources. It is the strict check of the grammar
  \<open>"(" (decimal-length ":" raw-bytes-of-that-length | nested-S-expr)* ")"\<close>: it returns
  the length of the expression that starts the buffer and 0 for any deviation (a missing
  or zero-led length prefix, a truncated payload, a stray character, an unbalanced
  parenthesis). A length of 0 means that the buffer is not bounded; running off the bytes
  that the model has (no such byte was written) counts as a deviation.
\<close>

function canon_scan :: "nat \<Rightarrow> nat \<Rightarrow> nat \<Rightarrow> nat \<Rightarrow> string \<Rightarrow> nat" where
  "canon_scan len count level datalen [] = 0"
| "canon_scan len count level datalen (c # cs) =
     (if len \<noteq> 0 \<and> len \<le> count then 0
      else if datalen \<noteq> 0 then
        (if c = CHR '':'' then
           (if len \<noteq> 0 \<and> len \<le> count + datalen then 0
            else if length cs < datalen then 0
            else canon_scan len (count + datalen + 1) level 0 (drop datalen cs))
         else if digitp c then canon_scan len (count + 1) level (datalen * 10 + atoi_1 c) cs
         else 0)
      else if c = CHR ''('' then canon_scan len (count + 1) (level + 1) 0 cs
      else if c = CHR '')'' then
        (if level = 0 then 0
         else if level = 1 then count + 1
         else canon_scan len (count + 1) (level - 1) 0 cs)
      else if digitp c then
        (if c = CHR ''0'' then 0 else canon_scan len (count + 1) level (atoi_1 c) cs)
      else 0)"
  by pat_completeness auto
termination
  by (relation "measure (\<lambda>(len, count, level, datalen, cs). length cs)") auto

definition gcry_sexp_canon_len :: "string option \<Rightarrow> nat \<Rightarrow> nat" where
  "gcry_sexp_canon_len buffer len =
     (case buffer of
        None \<Rightarrow> 0
      | Some b \<Rightarrow> (if b = [] \<or> hd b \<noteq> CHR ''('' then 0 else canon_scan len 0 0 0 b))"

subsection \<open>Signing with a key of the agent\<close>

text \<open>
  \<^verbatim>\<open>gpg_error_from_syserror\<close> after a failed allocation; the code is that of
  \<^verbatim>\<open>ENOMEM\<close>.
\<close>

definition gpg_error_from_syserror :: gpg_error where
  "gpg_error_from_syserror = GPG_ERR_ENOMEM"

definition gpgsm_agent_pksign ::
  "env \<Rightarrow> world \<Rightarrow> string \<Rightarrow> string option \<Rightarrow> string \<Rightarrow> int \<Rightarrow> (gpg_error + string) \<times> world" where
  "gpgsm_agent_pksign e w keygrip desc digest digestalgo =
     or_return (start_agent e w) (\<lambda>w.
       if ASSUAN_LINELENGTH < length digest * 2 + 50 then (Inl GPG_ERR_GENERAL, w)
       else
       or_return (transact_plain e ''RESET'' w) (\<lambda>w.
       or_return (transact_plain e (snprintf_line (''SIGKEY '' @ keygrip)) w) (\<lambda>w.
       or_return (setkeydesc e desc w) (\<lambda>w.
       or_return (transact_plain e
                    (''SETHASH '' @ dec_int digestalgo @ '' '' @ hex_dump digest) w) (\<lambda>w.
       (case assuan_transact e ''PKSIGN'' (Some put_membuf_cb) (Some (default_inq_cb e))
               (None :: unit status_cb option) w [] () of
          (Some err, w, _, _) \<Rightarrow> (Inl err, w)
        | (None, w, d, _) \<Rightarrow>
            (let r_buf = get_membuf e d; r_buflen = length d
             in if gcry_sexp_canon_len r_buf r_buflen = 0 then (Inl GPG_ERR_INV_VALUE, w)
                else (case r_buf of
                        Some b \<Rightarrow> (Inr b, w)
                      | None \<Rightarrow> (Inl gpg_error_from_syserror, w)))))))))"

subsection \<open>Signing with a key on a card\<close>

text \<open>The numbers of the digest algorithms come from the header of libgcrypt.\<close>

definition GCRY_MD_MD5 :: int where "GCRY_MD_MD5 = 1"
definition GCRY_MD_SHA1 :: int where "GCRY_MD_SHA1 = 2"
definition GCRY_MD_RMD160 :: int where "GCRY_MD_RMD160 = 3"
definition GCRY_MD_SHA256 :: int where "GCRY_MD_SHA256 = 8"

text \<open>The \<^verbatim>\<open>switch\<close> on the digest algorithm; \<open>None\<close> is its \<^verbatim>\<open>default\<close> branch.\<close>

definition hashopt_of :: "int \<Rightarrow> string option" where
  "hashopt_of digestalgo =
     (if digestalgo = GCRY_MD_SHA1 then Some ''--hash=sha1''
      else if digestalgo = GCRY_MD_RMD160 then Some ''--hash=rmd160''
      else if digestalgo = GCRY_MD_MD5 then Some ''--hash=md5''
      else if digestalgo = GCRY_MD_SHA256 then Some ''--hash=sha256''
      else None)"

text \<open>
  What the assembly of the S-expression writes before the closing Nul:
  \<^verbatim>\<open>stpcpy\<close> of the head, \<^verbatim>\<open>sprintf ("%u:", (unsigned int) sigbuflen)\<close>,
  \<^verbatim>\<open>memcpy\<close> of the signature and \<^verbatim>\<open>strcpy\<close> of the three parentheses.
\<close>

definition sig_val_text :: "string \<Rightarrow> string" where
  "sig_val_text sigbuf =
     ''(7:sig-val(3:rsa(1:s'' @ dec_nat (length sigbuf mod 2 ^ 32) @ '':'' @ sigbuf @ '')))''"

text \<open>
  The last part of \<^verbatim>\<open>gpgsm_scd_pksign\<close>, from the computation of \<^verbatim>\<open>*r_buflen\<close> to
  the end: the result is the return code, \<^verbatim>\<open>*r_buf\<close> and \<^verbatim>\<open>*r_buflen\<close>. The buffer
  is given by the bytes written to it, the Nul of \<^verbatim>\<open>strcpy\<close> included; the bytes of
  the allocation after them are never written.
\<close>

definition wrapRawSignature :: "env \<Rightarrow> string \<Rightarrow> (rc \<times> string option \<times> nat option) outcome" where
  "wrapRawSignature e sigbuf =
     (let r_buflen = 21 + 11 + length sigbuf + 4
      in if \<not> xtrymalloc_ok e r_buflen then Returns (None, None, Some r_buflen)
         else
           (let r_buf = sig_val_text sigbuf @ [CHR 0x00]
            in if gcry_sexp_canon_len (Some r_buf) r_buflen = 0 then Aborts
               else Returns (None, Some r_buf, Some r_buflen)))"

text \<open>
  \<^verbatim>\<open>*r_buflen\<close> is \<open>None\<close> as long as the function has not written it. When the membuf
  ran out of memory, the source goes on with a null pointer and a length that was never
  set; that is \<open>Aborts\<close> here.
\<close>

definition gpgsm_scd_pksign ::
  "env \<Rightarrow> world \<Rightarrow> string \<Rightarrow> string option \<Rightarrow> string \<Rightarrow> int \<Rightarrow>
   (rc \<times> string option \<times> nat option) outcome \<times> world" where
  "gpgsm_scd_pksign e w keyid desc digest digestalgo =
     (case hashopt_of digestalgo of
        None \<Rightarrow> (Returns (Some GPG_ERR_DIGEST_ALGO, None, None), w)
      | Some hashopt \<Rightarrow>
          (case start_agent e w of
             (Some err, w) \<Rightarrow> (Returns (Some err, None, None), w)
           | (None, w) \<Rightarrow>
               if ASSUAN_LINELENGTH < length digest * 2 + 50
               then (Returns (Some GPG_ERR_GENERAL, None, None), w)
               else
                 (case transact_plain e (''SCD SETDATA '' @ hex_dump digest) w of
                    (Some err, w) \<Rightarrow> (Returns (Some err, None, None), w)
                  | (None, w) \<Rightarrow>
                      (case assuan_transact e
                              (snprintf_line (''SCD PKSIGN '' @ hashopt @ '' '' @ keyid))
                              (Some put_membuf_cb) (Some (default_inq_cb e))
                              (None :: unit status_cb option) w [] () of
                         (Some err, w, _, _) \<Rightarrow> (Returns (Some err, None, None), w)
                       | (None, w, d, _) \<Rightarrow>
                           (case get_membuf e d of
                              None \<Rightarrow> (Aborts, w)
                            | Some sigbuf \<Rightarrow> (wrapRawSignature e sigbuf, w))))))"

subsection \<open>Decryption\<close>

definition ULONG_MAX :: nat where
  "ULONG_MAX = 2 ^ 64 - 1"

text \<open>
  \<^verbatim>\<open>strtoul (p, &endp, 10)\<close> of the C library: white space, an optional sign and the
  longest run of digits; the value saturates at \<^verbatim>\<open>ULONG_MAX\<close> and is negated modulo
  \<open>2 ^ 64\<close> after a minus sign. The result is the value and \<^verbatim>\<open>endp - p\<close>; without a
  digit both are 0.
\<close>

definition strtoul :: "string \<Rightarrow> nat \<times> nat" where
  "strtoul p =
     (let ws = takeWhile isspace p;
          p1 = dropWhile isspace p;
          signed = (p1 \<noteq> [] \<and> (hd p1 = CHR ''-'' \<or> hd p1 = CHR ''+''));
          neg = (p1 \<noteq> [] \<and> hd p1 = CHR ''-'');
          p2 = (if signed then tl p1 else p1);
          ds = takeWhile digitp p2;
          v = foldl (\<lambda>a c. a * 10 + atoi_1 c) 0 ds
      in if ds = [] then (0, 0)
         else ((if ULONG_MAX < v then ULONG_MAX
                else if neg then (2 ^ 64 - v) mod 2 ^ 64
                else v),
               length ws + (if signed then 1 else 0) + length ds))"

text \<open>
  The last part of \<^verbatim>\<open>gpgsm_agent_pkdecrypt\<close>, from the Nul that is appended to the
  received bytes to the end. The sum \<^verbatim>\<open>endp - p + n\<close> is computed in \<^verbatim>\<open>size_t\<close>.
  \<^verbatim>\<open>memmove\<close> brings \<^verbatim>\<open>n\<close> bytes from \<^verbatim>\<open>endp\<close> to the front of the buffer, and
  these are the result. When the sum wraps around, the test lets a number pass that is
  larger than what the buffer holds after \<^verbatim>\<open>endp\<close>: the source then reports that
  number as the length and \<^verbatim>\<open>memmove\<close> reads past the end of the buffer; the model
  gives the bytes that the buffer has, and no property below is about that case.
\<close>

definition extractValueField :: "env \<Rightarrow> string \<Rightarrow> gpg_error + string" where
  "extractValueField e received =
     (case get_membuf e (received @ [CHR 0x00]) of
        None \<Rightarrow> Inl GPG_ERR_ENOMEM
      | Some buf \<Rightarrow>
          (let len = length buf
           in if hd buf = CHR ''('' \<and> (len < 13 \<or> take 8 buf \<noteq> ''(5:value'')
              then Inl GPG_ERR_INV_SEXP
              else
                (let len = (if hd buf = CHR ''('' then len - 11 else len - 1);
                     p = (if hd buf = CHR ''('' then drop 8 buf else buf);
                     (n, k) = strtoul p
                 in (case drop k p of
                       [] \<Rightarrow> Inl GPG_ERR_INV_SEXP
                     | c # endp \<Rightarrow>
                         if n = 0 \<or> c \<noteq> CHR '':'' then Inl GPG_ERR_INV_SEXP
                         else if len < (k + 1 + n) mod 2 ^ 64 then Inl GPG_ERR_INV_SEXP
                         else Inr (take n endp)))))"

text \<open>
  The inquiry callback of the decryption, with the ciphertext as its parameter. In
  \<^verbatim>\<open>gpgsm_agent_pkdecrypt\<close> the two result pointers are taken to be given: of the tests
  at its head those of the keygrip and of the ciphertext remain.
\<close>

definition inq_ciphertext_cb :: "env \<Rightarrow> string \<Rightarrow> world \<Rightarrow> string \<Rightarrow> rc \<times> world" where
  "inq_ciphertext_cb e ciphertext w line =
     (if has_leading_keyword line ''CIPHERTEXT'' \<noteq> None
      then (assuan_send_data e ciphertext,
            w\<lparr>inquiry_data := inquiry_data w @ [(True, ciphertext)]\<rparr>)
      else default_inq_cb e w line)"

definition gpgsm_agent_pkdecrypt ::
  "env \<Rightarrow> world \<Rightarrow> string option \<Rightarrow> string option \<Rightarrow> string option \<Rightarrow>
   (gpg_error + string) \<times> world" where
  "gpgsm_agent_pkdecrypt e w keygrip desc ciphertext =
     (case (keygrip, ciphertext) of
        (Some grip, Some ct) \<Rightarrow>
          if length grip \<noteq> 40 then (Inl GPG_ERR_INV_VALUE, w)
          else
            (let ciphertextlen = gcry_sexp_canon_len (Some ct) 0
             in if ciphertextlen = 0 then (Inl GPG_ERR_INV_VALUE, w)
                else
                  or_return (start_agent e w) (\<lambda>w.
                  or_return (transact_plain e ''RESET'' w) (\<lambda>w.
                  or_return (transact_plain e (snprintf_line (''SETKEY '' @ grip)) w) (\<lambda>w.
                  or_return (setkeydesc e desc w) (\<lambda>w.
                  (case assuan_transact e ''PKDECRYPT'' (Some put_membuf_cb)
                          (Some (inq_ciphertext_cb e (take ciphertextlen ct)))
                          (None :: unit status_cb option) w [] () of
                     (Some err, w, _, _) \<Rightarrow> (Inl err, w)
                   | (None, w, d, _) \<Rightarrow> (extractValueField e d, w)))))))
      | _ \<Rightarrow> (Inl GPG_ERR_INV_VALUE, w))"

subsection \<open>Serial number and key pairs of the card\<close>

text \<open>
  The two loops at the head of the status callbacks: the keyword is the line up to the
  first blank, the arguments start after the blanks that follow it.
\<close>

definition status_keyword :: "string \<Rightarrow> string" where
  "status_keyword line = takeWhile (\<lambda>c. \<not> spacep c) line"

definition status_args :: "string \<Rightarrow> string" where
  "status_args line = dropWhile spacep (dropWhile (\<lambda>c. \<not> spacep c) line)"





text \<open>
  The entry that the callback leaves in the list: the copy of the arguments, cut after the
  second token. \<^verbatim>\<open>append_to_strlist\<close> puts the copy at the end of the list.
\<close>

definition keypairinfo_entry :: "string \<Rightarrow> string" where
  "keypairinfo_entry args =
     (let tok1 = takeWhile (\<lambda>c. \<not> spacep c) args;
          p = dropWhile (\<lambda>c. \<not> spacep c) args
      in if p \<noteq> []
         then tok1 @ takeWhile spacep p @ takeWhile (\<lambda>c. \<not> spacep c) (dropWhile spacep p)
         else args)"

definition scd_keypairinfo_status_cb :: "string list \<Rightarrow> string \<Rightarrow> rc \<times> string list" where
  "scd_keypairinfo_status_cb list line =
     (if status_keyword line = ''KEYPAIRINFO''
      then (None, list @ [keypairinfo_entry (status_args line)])
      else (None, list))"

definition gpgsm_agent_scd_keypairinfo :: "env \<Rightarrow> world \<Rightarrow> (gpg_error + string list) \<times> world" where
  "gpgsm_agent_scd_keypairinfo e w =
     or_return (start_agent e w) (\<lambda>w.
       (case assuan_transact e ''SCD LEARN --force'' None (Some (default_inq_cb e))
               (Some scd_keypairinfo_status_cb) w [] [] of
          (rc, w, _, list) \<Rightarrow>
            (let rc = (if rc = None \<and> list = [] then Some GPG_ERR_NO_DATA else rc)
             in (case rc of Some err \<Rightarrow> (Inl err, w) | None \<Rightarrow> (Inr list, w)))))"

subsection \<open>Trust queries\<close>

record rootca_flags =
  relax :: bool
  chain_model :: bool
  valid :: bool

definition istrusted_status_cb :: "rootca_flags \<Rightarrow> string \<Rightarrow> rc \<times> rootca_flags" where
  "istrusted_status_cb flags line =
     (case has_leading_keyword line ''TRUSTLISTFLAG'' of
        None \<Rightarrow> (None, flags)
      | Some s \<Rightarrow>
          if has_leading_keyword s ''relax'' \<noteq> None then (None, flags\<lparr>relax := True\<rparr>)
          else if has_leading_keyword s ''cm'' \<noteq> None then (None, flags\<lparr>chain_model := True\<rparr>)
          else (None, flags))"

text \<open>
  A certificate is given by what \<^verbatim>\<open>gpgsm_get_fingerprint_hexstring\<close> returns for it:
  the hex string or \<^verbatim>\<open>NULL\<close>. The result of the query is the return code and the flags
  record as the caller finds it afterwards; the flags that the caller passed in are
  overwritten by the \<^verbatim>\<open>memset\<close> and so are not an argument. Without a certificate
  and without a fingerprint there is no hex string either.
\<close>

datatype ksba_cert = Cert (gpgsm_get_fingerprint_hexstring: "string option")

definition gpgsm_agent_istrusted ::
  "env \<Rightarrow> world \<Rightarrow> ksba_cert option \<Rightarrow> string option \<Rightarrow> rc \<times> rootca_flags \<times> world" where
  "gpgsm_agent_istrusted e w cert hexfpr =
     (let rootca_flags = \<lparr>relax = False, chain_model = False, valid = False\<rparr>
      in if cert \<noteq> None \<and> hexfpr \<noteq> None then (Some GPG_ERR_INV_ARG, rootca_flags, w)
         else
           (case start_agent e w of
              (Some err, w) \<Rightarrow> (Some err, rootca_flags, w)
            | (None, w) \<Rightarrow>
                (case (case hexfpr of
                         Some h \<Rightarrow> Some h
                       | None \<Rightarrow> (case cert of
                                    Some c \<Rightarrow> gpgsm_get_fingerprint_hexstring c
                                  | None \<Rightarrow> None)) of
                   None \<Rightarrow> (Some GPG_ERR_GENERAL, rootca_flags,
                             log_msg ''error getting the fingerprint'' w)
                 | Some fpr \<Rightarrow>
                     (case assuan_transact e (snprintf_line (''ISTRUSTED '' @ fpr)) None None
                             (Some istrusted_status_cb) w [] rootca_flags of
                        (rc, w, _, flags) \<Rightarrow>
                          (rc, (if rc = None then flags\<lparr>valid := True\<rparr> else flags), w)))))"

subsection \<open>Operations that take a keygrip\<close>

definition gpgsm_agent_havekey :: "env \<Rightarrow> world \<Rightarrow> string option \<Rightarrow> rc \<times> world" where
  "gpgsm_agent_havekey e w hexkeygrip =
     (case start_agent e w of
        (Some err, w) \<Rightarrow> (Some err, w)
      | (None, w) \<Rightarrow>
          (case hexkeygrip of
             None \<Rightarrow> (Some GPG_ERR_INV_VALUE, w)
           | Some grip \<Rightarrow>
               if length grip \<noteq> 40 then (Some GPG_ERR_INV_VALUE, w)
               else transact_plain e (snprintf_line (''HAVEKEY '' @ grip)) w))"

definition gpgsm_agent_passwd ::
  "env \<Rightarrow> world \<Rightarrow> string option \<Rightarrow> string option \<Rightarrow> rc \<times> world" where
  "gpgsm_agent_passwd e w hexkeygrip desc =
     (case start_agent e w of
        (Some err, w) \<Rightarrow> (Some err, w)
      | (None, w) \<Rightarrow>
          (case hexkeygrip of
             None \<Rightarrow> (Some GPG_ERR_INV_VALUE, w)
           | Some grip \<Rightarrow>
               if length grip \<noteq> 40 then (Some GPG_ERR_INV_VALUE, w)
               else
                 (case setkeydesc e desc w of
                    (Some err, w) \<Rightarrow> (Some err, w)
                  | (None, w) \<Rightarrow> transact_inq e (snprintf_line (''PASSWD '' @ grip)) w)))"

text \<open>\<^verbatim>\<open>strchr (s, ' ')\<close>: the string from the first space on, or \<^verbatim>\<open>NULL\<close>.\<close>

definition strchr_space :: "string \<Rightarrow> string option" where
  "strchr_space s =
     (case dropWhile (\<lambda>c. c \<noteq> CHR '' '') s of [] \<Rightarrow> None | r \<Rightarrow> Some r)"

definition keyinfo_status_cb :: "env \<Rightarrow> string option \<Rightarrow> string \<Rightarrow> rc \<times> string option" where
  "keyinfo_status_cb e serialno line =
     (case has_leading_keyword line ''KEYINFO'' of
        None \<Rightarrow> (None, serialno)
      | Some s \<Rightarrow>
          if serialno \<noteq> None then (None, serialno)
          else
            (case strchr_space s of
               Some (c0 # CHR ''T'' # CHR '' '' # c3 # r) \<Rightarrow>
                 (let s3 = c3 # r; tok = takeWhile (\<lambda>c. c \<noteq> CHR '' '') s3
                  in if strchr_space s3 \<noteq> None \<and> tok \<noteq> [] \<and> xtrymalloc_ok e (length tok + 1)
                     then (None, Some tok)
                     else (None, None))
             | _ \<Rightarrow> (None, None)))"

definition gpgsm_agent_keyinfo ::
  "env \<Rightarrow> world \<Rightarrow> string option \<Rightarrow> (gpg_error + string option) \<times> world" where
  "gpgsm_agent_keyinfo e w hexkeygrip =
     or_return (start_agent e w) (\<lambda>w.
       (case hexkeygrip of
          None \<Rightarrow> (Inl GPG_ERR_INV_VALUE, w)
        | Some grip \<Rightarrow>
            if length grip \<noteq> 40 then (Inl GPG_ERR_INV_VALUE, w)
            else
              (case assuan_transact e (snprintf_line (''KEYINFO '' @ grip)) None None
                      (Some (keyinfo_status_cb e)) w [] None of
                 (Some err, w, _, _) \<Rightarrow> (Inl err, w)
               | (None, w, _, serialno) \<Rightarrow>
                   (case serialno of
                      None \<Rightarrow> (Inr None, w)
                    | Some s \<Rightarrow>
                        if \<exists>c \<in> set s. c \<in> set [CHR '':'', CHR 0x0A, CHR 0x0D]
                        then (Inl GPG_ERR_INV_VALUE, w)
                        else (Inr (Some s), w)))))"

subsection \<open>The fields of a line\<close>



subsection \<open>A sample environment\<close>

text \<open>
  An agent that is reachable and answers every command with a plain OK, collaborators and
  allocators that never fail, and the state of a process that has not yet called the agent.
\<close>

definition quiet_env :: env where
  "quiet_env =
     \<lparr>opt_autostart = True, start_new_gpg_agent = None,
      agent_reply = (\<lambda>history line. ([], None)),
      gpgsm_proxy_pinentry_notify = (\<lambda>line. None),
      sm_static_passphrase = None,
      assuan_send_data = (\<lambda>data. None),
      xtrymalloc_ok = (\<lambda>size. True),
      membuf_ok = True\<rparr>"

definition fresh_world :: world where
  "fresh_world =
     \<lparr>agent_ctx = False, shown = False, agent_seen = False, connect_attempts = 0,
      sent = [], inquiry_data = [], logged = []\<rparr>"

section \<open>Properties\<close>

subsection \<open>Decimal numerals\<close>

lemma digit_char_digitp: "k < 10 \<Longrightarrow> digitp (digit_char k)"
proof -
  assume "k < 10"
  then have "k \<in> {0,1,2,3,4,5,6,7,8,9}" by auto
  then show ?thesis by (auto simp: digit_char_def digitp_def)
qed

lemma atoi_1_digit_char: "k < 10 \<Longrightarrow> atoi_1 (digit_char k) = k"
proof -
  assume "k < 10"
  then have "k \<in> {0,1,2,3,4,5,6,7,8,9}" by auto
  then show ?thesis by (auto simp: digit_char_def atoi_1_def)
qed

lemma digit_char_zero: "k < 10 \<Longrightarrow> digit_char k = CHR ''0'' \<longleftrightarrow> k = 0"
proof -
  assume "k < 10"
  then have "k \<in> {0,1,2,3,4,5,6,7,8,9}" by auto
  then show ?thesis by (auto simp: digit_char_def)
qed

lemma dec_nat_digits: "c \<in> set (dec_nat n) \<Longrightarrow> digitp c"
proof (induction n arbitrary: c rule: dec_nat.induct)
  case (1 n)
  show ?case
  proof (cases "n < 10")
    case True
    with "1.prems" show ?thesis by (simp add: dec_nat.simps [of n] digit_char_digitp)
  next
    case False
    with "1.prems" "1.IH" show ?thesis
      by (auto simp: dec_nat.simps [of n] digit_char_digitp)
  qed
qed

lemma dec_nat_value: "foldl (\<lambda>a c. a * 10 + atoi_1 c) 0 (dec_nat n) = n"
proof (induction n rule: dec_nat.induct)
  case (1 n)
  show ?case
  proof (cases "n < 10")
    case True
    then show ?thesis by (simp add: dec_nat.simps [of n] atoi_1_digit_char)
  next
    case False
    with "1.IH" show ?thesis
      by (simp add: dec_nat.simps [of n] atoi_1_digit_char)
  qed
qed

lemma dec_nat_nonempty: "dec_nat n \<noteq> []"
  by (simp add: dec_nat.simps [of n])

lemma dec_nat_hd: "0 < n \<Longrightarrow> hd (dec_nat n) \<noteq> CHR ''0''"
proof (induction n rule: dec_nat.induct)
  case (1 n)
  show ?case
  proof (cases "n < 10")
    case True
    with "1.prems" show ?thesis by (simp add: dec_nat.simps [of n] digit_char_zero)
  next
    case False
    then have "0 < n div 10" by simp
    with False "1.IH" show ?thesis
      by (simp add: dec_nat.simps [of n] dec_nat_nonempty)
  qed
qed

lemma dec_nat_length: "n < 10 ^ k \<Longrightarrow> 0 < k \<Longrightarrow> length (dec_nat n) \<le> k"
proof (induction n arbitrary: k rule: dec_nat.induct)
  case (1 n)
  show ?case
  proof (cases "n < 10")
    case True
    with "1.prems" show ?thesis by (simp add: dec_nat.simps [of n])
  next
    case False
    from "1.prems" obtain j where k: "k = Suc j" by (cases k) auto
    with False "1.prems" have j: "0 < j" by (cases j) auto
    from "1.prems" k have "n div 10 < 10 ^ j"
      by (simp add: less_mult_imp_div_less mult.commute)
    with "1.IH" [OF False this j] False k show ?thesis
      by (simp add: dec_nat.simps [of n])
  qed
qed

subsection \<open>Scanning a canonical S-expression\<close>

lemma dec_nat_hd_value: "0 < n \<Longrightarrow> atoi_1 (hd (dec_nat n)) \<noteq> 0"
proof (induction n rule: dec_nat.induct)
  case (1 n)
  show ?case
  proof (cases "n < 10")
    case True
    with "1.prems" show ?thesis by (simp add: dec_nat.simps [of n] atoi_1_digit_char)
  next
    case False
    then have "0 < n div 10" by simp
    with False "1.IH" show ?thesis
      by (simp add: dec_nat.simps [of n] dec_nat_nonempty)
  qed
qed

lemma canon_scan_digits:
  "acc \<noteq> 0 \<Longrightarrow> \<forall>c \<in> set ds. digitp c \<Longrightarrow> len = 0 \<or> count + length ds \<le> len \<Longrightarrow>
   canon_scan len count level acc (ds @ r # rest) =
   canon_scan len (count + length ds) level (foldl (\<lambda>a c. a * 10 + atoi_1 c) acc ds) (r # rest)"
proof (induction ds arbitrary: acc count)
  case Nil
  then show ?case by simp
next
  case (Cons c ds)
  from Cons.prems have c: "digitp c" "c \<noteq> CHR '':''"
    by (auto simp: digitp_def)
  from Cons.prems have b: "\<not> (len \<noteq> 0 \<and> len \<le> count)" by auto
  have "canon_scan len count level acc ((c # ds) @ r # rest) =
        canon_scan len (count + 1) level (acc * 10 + atoi_1 c) (ds @ r # rest)"
    using c b Cons.prems(1) by auto
  also have "\<dots> = canon_scan len (count + 1 + length ds) level
        (foldl (\<lambda>a c. a * 10 + atoi_1 c) (acc * 10 + atoi_1 c) ds) (r # rest)"
    using Cons.prems by (intro Cons.IH) auto
  finally show ?case by simp
qed

lemma canon_scan_number:
  assumes n: "0 < n" and len: "len = 0 \<or> count + length (dec_nat n) \<le> len"
  shows "canon_scan len count level 0 (dec_nat n @ r # rest) =
         canon_scan len (count + length (dec_nat n)) level n (r # rest)"
proof -
  obtain d ds where dn: "dec_nat n = d # ds"
    using dec_nat_nonempty [of n] by (cases "dec_nat n") auto
  have d: "digitp d" "d \<noteq> CHR ''0''"
    using dec_nat_digits [of d n] dec_nat_hd [OF n] dn by auto
  then have d': "d \<noteq> CHR ''('' " "d \<noteq> CHR '')''" by (auto simp: digitp_def)
  have ds: "\<forall>c \<in> set ds. digitp c"
    using dec_nat_digits [of _ n] dn by auto
  have nz: "atoi_1 d \<noteq> 0"
    using dec_nat_hd_value [OF n] dn by simp
  have v: "foldl (\<lambda>a c. a * 10 + atoi_1 c) (atoi_1 d) ds = n"
    using dec_nat_value [of n] dn by simp
  have b: "\<not> (len \<noteq> 0 \<and> len \<le> count)" using len dn by auto
  have "canon_scan len count level 0 (dec_nat n @ r # rest) =
        canon_scan len (count + 1) level (atoi_1 d) (ds @ r # rest)"
    using d d' b dn by auto
  also have "\<dots> = canon_scan len (count + 1 + length ds) level
        (foldl (\<lambda>a c. a * 10 + atoi_1 c) (atoi_1 d) ds) (r # rest)"
    using nz ds len dn by (intro canon_scan_digits) auto
  finally show ?thesis using v dn by simp
qed

lemma canon_scan_payload:
  "0 < length s \<Longrightarrow> len = 0 \<or> count + length s < len \<Longrightarrow>
   canon_scan len count level (length s) (CHR '':'' # s @ rest) =
   canon_scan len (count + length s + 1) level 0 rest"
  by auto

lemma canon_scan_sig_head:
  "20 < len \<Longrightarrow>
   canon_scan len 0 0 0 (''(7:sig-val(3:rsa(1:s'' @ rest) = canon_scan len 20 (Suc (Suc (Suc 0))) 0 rest"
  by (simp add: digitp_def atoi_1_def)

lemma canon_scan_sig_tail:
  "count + 2 < len \<Longrightarrow>
   canon_scan len count (Suc (Suc (Suc 0))) 0 ('')))'' @ rest) = count + 3"
  by simp

lemma canon_len_sig_val:
  assumes s: "s \<noteq> []" and b: "length s < 2 ^ 32"
  shows "gcry_sexp_canon_len (Some (sig_val_text s @ [CHR 0x00])) (21 + 11 + length s + 4)
         = 20 + length (dec_nat (length s)) + 1 + length s + 3"
proof -
  let ?n = "length s" and ?len = "21 + 11 + length s + 4"
  let ?d = "length (dec_nat ?n)"
  have "?n < 10 ^ 10" using b by simp
  then have d: "?d \<le> 10" by (rule dec_nat_length) simp
  have n: "0 < ?n" using s by simp
  have shape: "sig_val_text s @ [CHR 0x00] =
      ''(7:sig-val(3:rsa(1:s'' @ (dec_nat ?n @ CHR '':'' # (s @ '')))'' @ [CHR 0x00]))"
    using b by (simp add: sig_val_text_def)
  have "canon_scan ?len 0 0 0 (sig_val_text s @ [CHR 0x00]) =
        canon_scan ?len 20 (Suc (Suc (Suc 0))) 0 (dec_nat ?n @ CHR '':'' # (s @ '')))'' @ [CHR 0x00]))"
    unfolding shape by (rule canon_scan_sig_head) simp
  also have "\<dots> = canon_scan ?len (20 + ?d) (Suc (Suc (Suc 0))) ?n (CHR '':'' # (s @ '')))'' @ [CHR 0x00]))"
    using n d by (intro canon_scan_number) auto
  also have "\<dots> = canon_scan ?len (20 + ?d + ?n + 1) (Suc (Suc (Suc 0))) 0 ('')))'' @ [CHR 0x00])"
    using n d by (intro canon_scan_payload) auto
  also have "\<dots> = 20 + ?d + ?n + 1 + 3"
    using d by (intro canon_scan_sig_tail) auto
  finally have "canon_scan ?len 0 0 0 (sig_val_text s @ [CHR 0x00]) = 20 + ?d + 1 + ?n + 3"
    by simp
  moreover have "hd (sig_val_text s @ [CHR 0x00]) = CHR ''(''"
    by (simp add: sig_val_text_def)
  moreover have "sig_val_text s @ [CHR 0x00] \<noteq> []" by simp
  ultimately show ?thesis by (simp add: gcry_sexp_canon_len_def)
qed

subsection \<open>The default inquiry callback\<close>

text \<open>
  C3. The claim is that a failure of the relay to the client is logged and never returned.
  The callback does log it, but then returns it: on every inquiry line led by the keyword
  PINENTRY_LAUNCHED the result of \<open>default_inq_cb\<close> is the error of the relay, and a
  transaction whose inquiry handler is \<open>default_inq_cb\<close> ends with this error at that
  inquiry, whatever the agent would have sent afterwards. The comment in the function says
  that errors are not passed on.
\<close>

theorem default_inq_cb_passes_relay_error:
  assumes "has_leading_keyword line ''PINENTRY_LAUNCHED'' \<noteq> None"
    and "gpgsm_proxy_pinentry_notify e line = Some err"
  shows "default_inq_cb e w line =
           (Some err, log_msg ''failed to proxy PINENTRY_LAUNCHED inquiry to client'' w)
         \<and> transact_loop dcb (Some (default_inq_cb e)) scb fin (Inquire line # rs) w d s =
           (Some err, log_msg ''failed to proxy PINENTRY_LAUNCHED inquiry to client'' w, d, s)"
  using assms by (simp add: default_inq_cb_def)

theorem default_inq_cb_passes_relay_error_witness:
  "default_inq_cb (quiet_env\<lparr>gpgsm_proxy_pinentry_notify := (\<lambda>line. Some (GPG_ERR_CODE 77))\<rparr>)
     fresh_world ''PINENTRY_LAUNCHED 4711'' =
     (Some (GPG_ERR_CODE 77),
      log_msg ''failed to proxy PINENTRY_LAUNCHED inquiry to client'' fresh_world)
   \<and> transact_loop None
       (Some (default_inq_cb
          (quiet_env\<lparr>gpgsm_proxy_pinentry_notify := (\<lambda>line. Some (GPG_ERR_CODE 77))\<rparr>)))
       (None :: unit status_cb option) None [Inquire ''PINENTRY_LAUNCHED 4711'']
       fresh_world [] () =
     (Some (GPG_ERR_CODE 77),
      log_msg ''failed to proxy PINENTRY_LAUNCHED inquiry to client'' fresh_world, [], ())"
proof -
  let ?e = "quiet_env\<lparr>gpgsm_proxy_pinentry_notify := (\<lambda>line. Some (GPG_ERR_CODE 77))\<rparr>"
  have k: "has_leading_keyword ''PINENTRY_LAUNCHED 4711'' ''PINENTRY_LAUNCHED'' \<noteq> None"
    by (simp add: has_leading_keyword_def spacep_def)
  have r: "gpgsm_proxy_pinentry_notify ?e ''PINENTRY_LAUNCHED 4711'' = Some (GPG_ERR_CODE 77)"
    by simp
  show ?thesis
    by (rule default_inq_cb_passes_relay_error [OF k r])
qed

subsection \<open>Signing with a key on a card\<close>

text \<open>
  C8. For every digest algorithm other than SHA1, RIPEMD160, MD5 and SHA256 the card
  signing returns \<open>GPG_ERR_DIGEST_ALGO\<close>, writes no result, and leaves the state as it
  was: no connection attempt, no command line sent, so no \<^verbatim>\<open>SCD SETDATA\<close>.
\<close>

theorem scd_pksign_unsupported_digest:
  assumes "digestalgo \<notin> {GCRY_MD_SHA1, GCRY_MD_RMD160, GCRY_MD_MD5, GCRY_MD_SHA256}"
  shows "gpgsm_scd_pksign e w keyid desc digest digestalgo =
           (Returns (Some GPG_ERR_DIGEST_ALGO, None, None), w)"
  using assms by (simp add: gpgsm_scd_pksign_def hashopt_of_def)

theorem scd_pksign_unsupported_digest_witness:
  "gpgsm_scd_pksign quiet_env fresh_world ''OPENPGP.3'' None ''0123456789abcdefghij'' 10 =
     (Returns (Some GPG_ERR_DIGEST_ALGO, None, None), fresh_world)"
proof -
  have "(10::int) \<notin> {GCRY_MD_SHA1, GCRY_MD_RMD160, GCRY_MD_MD5, GCRY_MD_SHA256}"
    by (simp add: GCRY_MD_SHA1_def GCRY_MD_RMD160_def GCRY_MD_MD5_def GCRY_MD_SHA256_def)
  then show ?thesis by (rule scd_pksign_unsupported_digest)
qed

text \<open>
  The assertion at the end of the card signing says that the buffer it has built is a
  canonical S-expression. For a signature of fewer than \<open>2 ^ 32\<close> bytes this is so: when
  the result buffer can be allocated, the wrapping returns 0 with the text
  \<open>(7:sig-val(3:rsa(1:s<len>:<bytes>)))\<close>, and the validation of the buffer with the
  reported length \<^verbatim>\<open>*r_buflen\<close> gives the length of that text, which is positive
  and below the reported length (the size of the allocation).
\<close>

lemma wrapRawSignature_short_validates:
  assumes "s \<noteq> []" and "length s < 2 ^ 32" and "xtrymalloc_ok e (21 + 11 + length s + 4)"
  shows "wrapRawSignature e s =
           Returns (None, Some (sig_val_text s @ [CHR 0x00]), Some (21 + 11 + length s + 4))
         \<and> gcry_sexp_canon_len (Some (sig_val_text s @ [CHR 0x00])) (21 + 11 + length s + 4)
             = length (sig_val_text s)
         \<and> 0 < length (sig_val_text s)
         \<and> length (sig_val_text s) < 21 + 11 + length s + 4"
proof -
  have l: "length (sig_val_text s) = 20 + length (dec_nat (length s)) + 1 + length s + 3"
    using assms(2) by (simp add: sig_val_text_def)
  have "length s < 10 ^ 10" using assms(2) by simp
  then have d: "length (dec_nat (length s)) \<le> 10" by (rule dec_nat_length) simp
  have c: "gcry_sexp_canon_len (Some (sig_val_text s @ [CHR 0x00])) (21 + 11 + length s + 4)
             = length (sig_val_text s)"
    using canon_len_sig_val [OF assms(1,2)] l by simp
  show ?thesis using c l d assms(3) by (simp add: wrapRawSignature_def Let_def)
qed

text \<open>
  C4. The claim is what that assertion states, for every non-empty signature. The length
  is printed with \<^verbatim>\<open>%u\<close> after a conversion to \<^verbatim>\<open>unsigned int\<close>, which drops the
  bits above the 32nd: for a signature of \<open>2 ^ 32 + 1\<close> bytes the printed length is 1, the
  validation of the buffer with the reported length returns 0, and the assertion aborts
  the process, in the wrapping taken alone and in the card signing with an agent that
  answers \<^verbatim>\<open>SCD PKSIGN\<close> with these bytes.
\<close>

theorem wrapRawSignature_truncated_length:
  "gcry_sexp_canon_len
     (Some (sig_val_text (CHR ''A'' # CHR ''A'' # replicate 4294967295 (CHR ''A'')) @ [CHR 0x00]))
     (21 + 11 + length (CHR ''A'' # CHR ''A'' # replicate 4294967295 (CHR ''A'')) + 4) = 0
   \<and> wrapRawSignature quiet_env (CHR ''A'' # CHR ''A'' # replicate 4294967295 (CHR ''A''))
       = Aborts
   \<and> fst (gpgsm_scd_pksign
          (quiet_env\<lparr>agent_reply := (\<lambda>history line.
             if take 10 line = ''SCD PKSIGN''
             then ([Data (CHR ''A'' # CHR ''A'' # replicate 4294967295 (CHR ''A''))], None)
             else ([], None))\<rparr>)
          fresh_world ''OPENPGP.3'' None ''0123456789abcdefghij'' GCRY_MD_SHA1) = Aborts"
proof -
  let ?s = "CHR ''A'' # CHR ''A'' # replicate 4294967295 (CHR ''A'')"
  let ?e = "quiet_env\<lparr>agent_reply := (\<lambda>history line.
             if take 10 line = ''SCD PKSIGN'' then ([Data ?s], None) else ([], None))\<rparr>"
  let ?digest = "''0123456789abcdefghij''"
  let ?w1 = "fresh_world\<lparr>agent_ctx := True, connect_attempts := 1, agent_seen := True\<rparr>"
  let ?w2 = "?w1\<lparr>sent := [''SCD SETDATA '' @ hex_dump ?digest]\<rparr>"
  let ?w3 = "?w2\<lparr>sent := [''SCD SETDATA '' @ hex_dump ?digest,
                             snprintf_line (''SCD PKSIGN '' @ ''--hash=sha1'' @ '' '' @ ''OPENPGP.3'')]\<rparr>"
  have t: "sig_val_text ?s = ''(7:sig-val(3:rsa(1:s'' @ (''1:AA'' @ replicate 4294967295 (CHR ''A'') @ '')))'')"
    by (simp add: sig_val_text_def dec_nat.simps digit_char_def)
  have "canon_scan (21 + 11 + length ?s + 4) 0 0 0 (sig_val_text ?s @ [CHR 0x00]) = 0"
    unfolding t by (simp add: digitp_def atoi_1_def)
  then have c: "gcry_sexp_canon_len (Some (sig_val_text ?s @ [CHR 0x00])) (21 + 11 + length ?s + 4) = 0"
    by (simp add: gcry_sexp_canon_len_def)
  have a: "\<And>e. xtrymalloc_ok e (21 + 11 + length ?s + 4) \<Longrightarrow> wrapRawSignature e ?s = Aborts"
    using c by (simp add: wrapRawSignature_def Let_def)
  have a1: "wrapRawSignature quiet_env ?s = Aborts"
    by (rule a) (simp add: quiet_env_def)
  have a2: "wrapRawSignature ?e ?s = Aborts"
    by (rule a) (simp add: quiet_env_def)
  have h1: "hashopt_of GCRY_MD_SHA1 = Some ''--hash=sha1''"
    by (simp add: hashopt_of_def)
  have h2: "start_agent ?e fresh_world = (None, ?w1)"
    by (simp add: start_agent_def fresh_world_def quiet_env_def)
  have h3: "\<not> ASSUAN_LINELENGTH < length ?digest * 2 + 50"
    by (simp add: ASSUAN_LINELENGTH_def)
  have h4: "transact_plain ?e (''SCD SETDATA '' @ hex_dump ?digest) ?w1 = (None, ?w2)"
    by (simp add: transact_plain_def assuan_transact_def fresh_world_def)
  have h5: "assuan_transact ?e (snprintf_line (''SCD PKSIGN '' @ ''--hash=sha1'' @ '' '' @ ''OPENPGP.3''))
              (Some put_membuf_cb) (Some (default_inq_cb ?e)) (None :: unit status_cb option)
              ?w2 [] () = (None, ?w3, ?s, ())"
    by (simp add: assuan_transact_def snprintf_line_def ASSUAN_LINELENGTH_def put_membuf_cb_def
                  fresh_world_def)
  have h6: "get_membuf ?e ?s = Some ?s" by (simp add: get_membuf_def quiet_env_def)
  have "fst (gpgsm_scd_pksign ?e fresh_world ''OPENPGP.3'' None ?digest GCRY_MD_SHA1) = Aborts"
    unfolding gpgsm_scd_pksign_def
    by (simp only: h1 h2 h3 h4 h5 h6 a2 option.case prod.case if_False fst_conv)
  with c a1 show ?thesis by simp
qed

theorem wrapRawSignature_truncated_length_witness:
  "wrapRawSignature quiet_env (CHR ''A'' # CHR ''A'' # replicate 4294967295 (CHR ''A'')) = Aborts"
  using wrapRawSignature_truncated_length by simp

text \<open>
  C10. When the algorithm is supported, the agent is reached, the digest fits the line, both
  transactions succeed and the signature bytes have been received, but the allocation of
  the result buffer fails, the card signing returns 0 while \<^verbatim>\<open>*r_buf\<close> stays
  \<^verbatim>\<open>NULL\<close>; \<^verbatim>\<open>*r_buflen\<close> holds the size that was asked for.
\<close>

theorem scd_pksign_alloc_failure:
  assumes "hashopt_of digestalgo = Some hashopt"
    and "start_agent e w = (None, w1)"
    and "length digest * 2 + 50 \<le> ASSUAN_LINELENGTH"
    and "transact_plain e (''SCD SETDATA '' @ hex_dump digest) w1 = (None, w2)"
    and "assuan_transact e (snprintf_line (''SCD PKSIGN '' @ hashopt @ '' '' @ keyid))
           (Some put_membuf_cb) (Some (default_inq_cb e)) (None :: unit status_cb option)
           w2 [] () = (None, w3, sigbuf, u)"
    and "membuf_ok e"
    and "\<not> xtrymalloc_ok e (21 + 11 + length sigbuf + 4)"
  shows "gpgsm_scd_pksign e w keyid desc digest digestalgo =
           (Returns (None, None, Some (21 + 11 + length sigbuf + 4)), w3)"
  using assms
  by (simp add: gpgsm_scd_pksign_def get_membuf_def wrapRawSignature_def Let_def)

theorem scd_pksign_alloc_failure_witness:
  "fst (gpgsm_scd_pksign
          (quiet_env\<lparr>agent_reply := (\<lambda>history line.
                        if take 10 line = ''SCD PKSIGN'' then ([Data ''sig''], None)
                        else ([], None)),
                     xtrymalloc_ok := (\<lambda>size. False)\<rparr>)
          fresh_world ''OPENPGP.3'' None ''0123456789abcdefghij'' GCRY_MD_SHA1)
   = Returns (None, None, Some 39)"
proof -
  let ?e = "quiet_env\<lparr>agent_reply := (\<lambda>history line.
                        if take 10 line = ''SCD PKSIGN'' then ([Data ''sig''], None)
                        else ([], None)),
                     xtrymalloc_ok := (\<lambda>size. False)\<rparr>"
  let ?digest = "''0123456789abcdefghij''"
  let ?w1 = "fresh_world\<lparr>agent_ctx := True, connect_attempts := 1, agent_seen := True\<rparr>"
  let ?w2 = "?w1\<lparr>sent := [''SCD SETDATA '' @ hex_dump ?digest]\<rparr>"
  let ?w3 = "?w2\<lparr>sent := [''SCD SETDATA '' @ hex_dump ?digest,
                             snprintf_line (''SCD PKSIGN '' @ ''--hash=sha1'' @ '' '' @ ''OPENPGP.3'')]\<rparr>"
  have h1: "hashopt_of GCRY_MD_SHA1 = Some ''--hash=sha1''"
    by (simp add: hashopt_of_def)
  have h2: "start_agent ?e fresh_world = (None, ?w1)"
    by (simp add: start_agent_def fresh_world_def quiet_env_def)
  have h3: "length ?digest * 2 + 50 \<le> ASSUAN_LINELENGTH"
    by (simp add: ASSUAN_LINELENGTH_def)
  have h4: "transact_plain ?e (''SCD SETDATA '' @ hex_dump ?digest) ?w1 = (None, ?w2)"
    by (simp add: transact_plain_def assuan_transact_def fresh_world_def)
  have h5: "assuan_transact ?e (snprintf_line (''SCD PKSIGN '' @ ''--hash=sha1'' @ '' '' @ ''OPENPGP.3''))
              (Some put_membuf_cb) (Some (default_inq_cb ?e)) (None :: unit status_cb option)
              ?w2 [] () = (None, ?w3, ''sig'', ())"
    by (simp add: assuan_transact_def snprintf_line_def ASSUAN_LINELENGTH_def put_membuf_cb_def
                  fresh_world_def)
  have h6: "membuf_ok ?e" by (simp add: quiet_env_def)
  have h7: "\<not> xtrymalloc_ok ?e (21 + 11 + length ''sig'' + 4)" by simp
  show ?thesis
    using scd_pksign_alloc_failure [OF h1 h2 h3 h4 h5 h6 h7] by simp
qed

subsection \<open>Decryption\<close>

lemma digitp_not_other:
  "digitp c \<Longrightarrow> \<not> isspace c \<and> c \<noteq> CHR ''-'' \<and> c \<noteq> CHR ''+'' \<and> c \<noteq> CHR '':''"
  by (auto simp: digitp_def isspace_def)

lemma takeWhile_dec_nat:
  "takeWhile digitp (dec_nat n @ CHR '':'' # rest) = dec_nat n"
proof -
  have "\<not> digitp (CHR '':'')" by (simp add: digitp_def)
  then show ?thesis
    using dec_nat_digits [of _ n] by (simp add: takeWhile_append2 [where ys="CHR '':'' # rest"])
qed

lemma strtoul_dec_nat:
  assumes "n < 2 ^ 64"
  shows "strtoul (dec_nat n @ CHR '':'' # rest) = (n, length (dec_nat n))"
proof -
  obtain d ds where dn: "dec_nat n = d # ds"
    using dec_nat_nonempty [of n] by (cases "dec_nat n") auto
  have d: "digitp d" using dec_nat_digits [of d n] dn by simp
  note o = digitp_not_other [OF d]
  have tw: "takeWhile digitp (d # ds @ CHR '':'' # rest) = d # ds"
    using takeWhile_dec_nat [of n rest] dn by simp
  have v: "foldl (\<lambda>a c. a * 10 + atoi_1 c) 0 (d # ds) = n"
    using dec_nat_value [of n] dn by simp
  have "\<not> ULONG_MAX < n" using assms by (simp add: ULONG_MAX_def)
  then show ?thesis
    using o tw v unfolding dn strtoul_def Let_def
    by (simp del: foldl_Cons takeWhile.simps add: takeWhile.simps(2) [of isspace] )
qed

text \<open>
  C1. The claim is that the extraction inverts the construction
  \<open>(5:value<len>:<data>)\<close> for every \<open>data\<close>. On the buffer built exactly so, with the
  Nul that the function appends itself, the extraction fails for every value that fits the
  address space: it subtracts 11 from the length of the buffer, which leaves one byte too
  few for \<open><len>:<data>\<close>, so that the test of the length against the rest of the buffer
  returns \<open>GPG_ERR_INV_SEXP\<close>. The comment beside the test of the shortest length gives
  \<open>(5:valueN:D)\<close> with its Nul, 13 bytes, as the shortest input; this very buffer is
  rejected.
\<close>

theorem extractValueField_exact_rejected:
  assumes "membuf_ok e" and "length data + 21 < 2 ^ 64"
  shows "extractValueField e
           (''(5:value'' @ dec_nat (length data) @ '':'' @ data @ '')'') = Inl GPG_ERR_INV_SEXP"
proof -
  let ?n = "length data" and ?d = "length (dec_nat (length data))"
  let ?rest = "data @ '')'' @ [CHR 0x00]"
  have d: "0 < ?d" using dec_nat_nonempty [of ?n] by simp
  have "?n < 2 ^ 64" using assms(2) by simp
  then have st: "strtoul (dec_nat ?n @ CHR '':'' # ?rest) = (?n, ?d)"
    by (rule strtoul_dec_nat)
  have "?n < 10 ^ 20" using assms(2) by simp
  then have "?d \<le> 20" by (rule dec_nat_length) simp
  then have "?d + 1 + ?n < 2 ^ 64" using assms(2) by simp
  then have m: "(?d + 1 + ?n) mod 2 ^ 64 = ?d + 1 + ?n" by simp
  have "?d + ?n < (?d + 1 + ?n) mod 2 ^ 64"
    unfolding m by simp
  then show ?thesis
    using assms(1) st
    by (simp add: extractValueField_def get_membuf_def Let_def)
qed

theorem extractValueField_exact_rejected_witness:
  "extractValueField quiet_env
     (''(5:value'' @ dec_nat (length ''A'') @ '':'' @ ''A'' @ '')'') = Inl GPG_ERR_INV_SEXP
   \<and> ''(5:value'' @ dec_nat (length ''A'') @ '':'' @ ''A'' @ '')'' = ''(5:value1:A)''"
proof -
  have h: "membuf_ok quiet_env" "length ''A'' + 21 < (2::nat) ^ 64"
    by (simp_all add: quiet_env_def)
  have "''(5:value'' @ dec_nat (length ''A'') @ '':'' @ ''A'' @ '')'' = ''(5:value1:A)''"
    by (simp add: dec_nat.simps digit_char_def)
  with extractValueField_exact_rejected [OF h] show ?thesis by simp
qed

text \<open>
  The form of older agents, \<open><len>:<data>\<close> without tag and parentheses, is handled by the
  other branch, which subtracts only the Nul: it is accepted as it is and gives \<open>data\<close>.
  The tagged form gives \<open>data\<close> only when a further byte follows the closing parenthesis.
\<close>

lemma extractValueField_legacy:
  assumes "membuf_ok e" and "data \<noteq> []" and "length data < 2 ^ 64"
  shows "extractValueField e (dec_nat (length data) @ '':'' @ data) = Inr data"
proof -
  let ?n = "length data" and ?d = "length (dec_nat (length data))"
  let ?rest = "data @ [CHR 0x00]"
  obtain c cs where dn: "dec_nat ?n = c # cs"
    using dec_nat_nonempty [of ?n] by (cases "dec_nat ?n") auto
  have "digitp c" using dec_nat_digits [of c ?n] dn by simp
  then have c: "c \<noteq> CHR ''(''" by (auto simp: digitp_def)
  have st: "strtoul (c # cs @ CHR '':'' # ?rest) = (?n, Suc (length cs))"
    using strtoul_dec_nat [OF assms(3), of ?rest] dn by simp
  have "(Suc (length cs) + 1 + ?n) mod 2 ^ 64 \<le> Suc (length cs) + 1 + ?n" by simp
  then have "\<not> Suc (length cs) + ?n + 1 < (Suc (length cs) + 1 + ?n) mod 2 ^ 64"
    by linarith
  then show ?thesis
    using assms(1,2) c st unfolding dn
    by (simp add: extractValueField_def get_membuf_def Let_def)
qed

lemma extractValueField_trailing_byte:
  assumes "membuf_ok e" and "data \<noteq> []" and "length data < 2 ^ 64" and "tail \<noteq> []"
  shows "extractValueField e
           (''(5:value'' @ dec_nat (length data) @ '':'' @ data @ '')'' @ tail) = Inr data"
proof -
  let ?n = "length data" and ?d = "length (dec_nat (length data))"
  let ?rest = "data @ '')'' @ tail @ [CHR 0x00]"
  have d: "0 < ?d" using dec_nat_nonempty [of ?n] by simp
  have n: "0 < ?n" using assms(2) by simp
  have t: "0 < length tail" using assms(4) by simp
  have st: "strtoul (dec_nat ?n @ CHR '':'' # ?rest) = (?n, ?d)"
    by (rule strtoul_dec_nat [OF assms(3)])
  have m: "(?d + 1 + ?n) mod 2 ^ 64 \<le> ?d + 1 + ?n" by simp
  have "\<not> ?d + ?n + length tail < (?d + 1 + ?n) mod 2 ^ 64"
    using m t by linarith
  moreover have "\<not> ?d + (?n + length tail) < 2"
    using d n t by linarith
  ultimately show ?thesis
    using assms(1,2) st
    by (simp add: extractValueField_def get_membuf_def Let_def)
qed

subsection \<open>A digest that does not fit the command line\<close>

lemma start_agent_sent: "sent (snd (start_agent e w)) = sent w"
  by (simp add: start_agent_def log_msg_def Let_def split: prod.splits)

text \<open>
  C2. The claim is that a digest with \<open>2 * digestlen + 50 > ASSUAN_LINELENGTH\<close> makes
  both signing operations return \<open>GPG_ERR_INV_VALUE\<close> without any attempt to contact the
  agent. Both operations call \<open>start_agent\<close> before they look at the length, and the
  code they return for the length is \<open>GPG_ERR_GENERAL\<close>. What holds: for such a digest
  the signing returns the error of \<open>start_agent\<close> if the connection fails and
  \<open>GPG_ERR_GENERAL\<close> otherwise; so does the card signing when the digest algorithm is
  one it supports; and no command line is sent to the agent.
\<close>

theorem pksign_digest_too_long:
  assumes "ASSUAN_LINELENGTH < 2 * length digest + 50"
  shows "gpgsm_agent_pksign e w keygrip desc digest digestalgo =
           (Inl (case fst (start_agent e w) of Some err \<Rightarrow> err | None \<Rightarrow> GPG_ERR_GENERAL),
            snd (start_agent e w))
         \<and> (hashopt_of digestalgo \<noteq> None \<longrightarrow>
              gpgsm_scd_pksign e w keyid desc digest digestalgo =
                (Returns (Some (case fst (start_agent e w) of
                                  Some err \<Rightarrow> err | None \<Rightarrow> GPG_ERR_GENERAL), None, None),
                 snd (start_agent e w)))
         \<and> sent (snd (start_agent e w)) = sent w"
proof -
  have l: "ASSUAN_LINELENGTH < length digest * 2 + 50" using assms by (simp add: mult.commute)
  obtain r w1 where sa: "start_agent e w = (r, w1)" by (cases "start_agent e w")
  have a: "gpgsm_agent_pksign e w keygrip desc digest digestalgo =
           (Inl (case r of Some err \<Rightarrow> err | None \<Rightarrow> GPG_ERR_GENERAL), w1)"
    using l sa by (cases r) (simp_all add: gpgsm_agent_pksign_def or_return_def)
  have b: "hashopt_of digestalgo \<noteq> None \<longrightarrow>
           gpgsm_scd_pksign e w keyid desc digest digestalgo =
             (Returns (Some (case r of Some err \<Rightarrow> err | None \<Rightarrow> GPG_ERR_GENERAL), None, None), w1)"
    using l sa by (cases r) (auto simp: gpgsm_scd_pksign_def)
  show ?thesis using a b sa start_agent_sent [of e w] by simp
qed

theorem pksign_digest_too_long_witness:
  "gpgsm_agent_pksign quiet_env fresh_world ''0123456789012345678901234567890123456789'' None
     (replicate 500 (CHR 0x00)) GCRY_MD_SHA1 =
     (Inl GPG_ERR_GENERAL, snd (start_agent quiet_env fresh_world))
   \<and> gpgsm_scd_pksign quiet_env fresh_world ''OPENPGP.3'' None
     (replicate 500 (CHR 0x00)) GCRY_MD_SHA1 =
     (Returns (Some GPG_ERR_GENERAL, None, None), snd (start_agent quiet_env fresh_world))
   \<and> sent (snd (start_agent quiet_env fresh_world)) = []"
proof -
  have h: "ASSUAN_LINELENGTH < 2 * length (replicate 500 (CHR 0x00)) + 50"
    by (simp add: ASSUAN_LINELENGTH_def)
  have s: "fst (start_agent quiet_env fresh_world) = None"
    by (simp add: start_agent_def quiet_env_def fresh_world_def)
  have o: "hashopt_of GCRY_MD_SHA1 \<noteq> None" by (simp add: hashopt_of_def)
  have f: "sent fresh_world = []" by (simp add: fresh_world_def)
  show ?thesis
    using pksign_digest_too_long [OF h, where e = quiet_env and w = fresh_world
        and keygrip = "''0123456789012345678901234567890123456789''" and desc = None
        and digestalgo = GCRY_MD_SHA1 and keyid = "''OPENPGP.3''"]
      s o f by simp
qed

text \<open>
  With a digest of 500 bytes and an agent that can be reached, both operations return
  \<open>GPG_ERR_GENERAL\<close>, not \<open>GPG_ERR_INV_VALUE\<close>, and the connection to the agent has
  been made.
\<close>

theorem pksign_digest_too_long_counterexample:
  "fst (gpgsm_agent_pksign quiet_env fresh_world ''0123456789012345678901234567890123456789''
          None (replicate 500 (CHR 0x00)) GCRY_MD_SHA1) = Inl GPG_ERR_GENERAL
   \<and> fst (gpgsm_agent_pksign quiet_env fresh_world ''0123456789012345678901234567890123456789''
          None (replicate 500 (CHR 0x00)) GCRY_MD_SHA1) \<noteq> Inl GPG_ERR_INV_VALUE
   \<and> connect_attempts (snd (gpgsm_agent_pksign quiet_env fresh_world
          ''0123456789012345678901234567890123456789''
          None (replicate 500 (CHR 0x00)) GCRY_MD_SHA1)) = 1
   \<and> fst (gpgsm_scd_pksign quiet_env fresh_world ''OPENPGP.3'' None
          (replicate 500 (CHR 0x00)) GCRY_MD_SHA1) = Returns (Some GPG_ERR_GENERAL, None, None)
   \<and> connect_attempts (snd (gpgsm_scd_pksign quiet_env fresh_world ''OPENPGP.3'' None
          (replicate 500 (CHR 0x00)) GCRY_MD_SHA1)) = 1"
  by (simp add: gpgsm_agent_pksign_def gpgsm_scd_pksign_def or_return_def start_agent_def
        quiet_env_def fresh_world_def ASSUAN_LINELENGTH_def hashopt_of_def)

subsection \<open>The serial number of the card\<close>







subsection \<open>Trust queries\<close>

text \<open>
  The record is cleared before anything else, the status callback never touches the valid
  flag, and the query sets it exactly when the transaction succeeded.
\<close>

lemma istrusted_status_cb_valid:
  "valid (snd (istrusted_status_cb flags line)) = valid flags
   \<and> fst (istrusted_status_cb flags line) = None"
  by (simp add: istrusted_status_cb_def split: option.splits)

lemma istrusted_loop_valid:
  "valid (snd (snd (snd (transact_loop dcb icb (Some istrusted_status_cb) fin rs w d flags))))
   = valid flags"
proof (induction rs arbitrary: w d flags)
  case Nil
  then show ?case by simp
next
  case (Cons r rs)
  show ?case
  proof (cases r)
    case (Data chunk)
    then show ?thesis using Cons.IH by (auto split: option.splits prod.splits)
  next
    case (Inquire line)
    then show ?thesis using Cons.IH by (auto split: option.splits prod.splits)
  next
    case (Status line)
    obtain f where f: "istrusted_status_cb flags line = (None, f)" "valid f = valid flags"
      using istrusted_status_cb_valid [of flags line]
      by (cases "istrusted_status_cb flags line") auto
    then show ?thesis using Status Cons.IH [of w d f] by simp
  qed
qed

lemma istrusted_valid_iff:
  assumes "gpgsm_agent_istrusted e w cert hexfpr = (r, flags, w')"
  shows "valid flags \<longleftrightarrow> r = None"
proof -
  let ?z = "\<lparr>relax = False, chain_model = False, valid = False\<rparr>"
  have v: "\<And>line w1 r' w2 d f.
      assuan_transact e line None None (Some istrusted_status_cb) w1 [] ?z = (r', w2, d, f)
      \<Longrightarrow> \<not> valid f"
  proof -
    fix line w1 r' w2 d f
    assume a: "assuan_transact e line None None (Some istrusted_status_cb) w1 [] ?z = (r', w2, d, f)"
    obtain rs fin where ar: "agent_reply e (sent w1) line = (rs, fin)"
      by (cases "agent_reply e (sent w1) line")
    show "\<not> valid f"
      using istrusted_loop_valid [of None None fin rs "w1\<lparr>sent := sent w1 @ [line]\<rparr>" "[]" ?z]
        a ar by (simp add: assuan_transact_def)
  qed
  show ?thesis
    using assms v
    by (auto simp: gpgsm_agent_istrusted_def Let_def
             split: if_splits prod.splits option.splits)
qed

text \<open>
  C7. The claim is that on any error the record is not left with an individual flag set.
  The status callback writes into the record of the caller while the transaction runs, and
  nothing clears the record when the transaction fails afterwards: when the agent answers
  \<^verbatim>\<open>ISTRUSTED\<close> with the status line \<open>TRUSTLISTFLAG relax\<close> and then with an error,
  the query returns that error and a record with \<open>relax\<close> set and \<open>valid\<close> clear. The
  comment above the function says that the flags are guaranteed to be cleared on error.
\<close>

theorem istrusted_flags_left_on_error:
  assumes "start_agent e w = (None, w1)"
    and "agent_reply e (sent w1) (snprintf_line (''ISTRUSTED '' @ fpr)) =
           ([Status ''TRUSTLISTFLAG relax''], Some err)"
  shows "gpgsm_agent_istrusted e w None (Some fpr) =
           (Some err, \<lparr>relax = True, chain_model = False, valid = False\<rparr>,
            w1\<lparr>sent := sent w1 @ [snprintf_line (''ISTRUSTED '' @ fpr)]\<rparr>)"
  using assms
  by (simp add: gpgsm_agent_istrusted_def assuan_transact_def istrusted_status_cb_def
        has_leading_keyword_def spacep_def)

theorem istrusted_flags_left_on_error_witness:
  "gpgsm_agent_istrusted
     (quiet_env\<lparr>agent_reply := (\<lambda>history line.
        ([Status ''TRUSTLISTFLAG relax''], Some (GPG_ERR_CODE 1)))\<rparr>)
     fresh_world None (Some ''A9993E364706816ABA3E25717850C26C9CD0D89D'') =
     (Some (GPG_ERR_CODE 1), \<lparr>relax = True, chain_model = False, valid = False\<rparr>,
      fresh_world\<lparr>agent_ctx := True, connect_attempts := 1, agent_seen := True,
                  sent := [''ISTRUSTED A9993E364706816ABA3E25717850C26C9CD0D89D'']\<rparr>)"
proof -
  let ?e = "quiet_env\<lparr>agent_reply := (\<lambda>history line.
        ([Status ''TRUSTLISTFLAG relax''], Some (GPG_ERR_CODE 1)))\<rparr>"
  let ?w1 = "fresh_world\<lparr>agent_ctx := True, connect_attempts := 1, agent_seen := True\<rparr>"
  have h1: "start_agent ?e fresh_world = (None, ?w1)"
    by (simp add: start_agent_def fresh_world_def quiet_env_def)
  have h2: "agent_reply ?e (sent ?w1)
              (snprintf_line (''ISTRUSTED '' @ ''A9993E364706816ABA3E25717850C26C9CD0D89D'')) =
            ([Status ''TRUSTLISTFLAG relax''], Some (GPG_ERR_CODE 1))"
    by simp
  show ?thesis
    using istrusted_flags_left_on_error [OF h1 h2]
    by (simp add: snprintf_line_def ASSUAN_LINELENGTH_def fresh_world_def)
qed

subsection \<open>Operations that take a keygrip\<close>

text \<open>
  C6. The claim is that decrypt, havekey, passwd, keyinfo and sign reject a keygrip that is
  not exactly 40 hex characters, with \<open>GPG_ERR_INV_VALUE\<close>, before the agent is
  contacted. The check that the code has is on the length alone, and sign has none. What
  holds: a keygrip that is absent or not exactly 40 characters long makes decrypt return
  \<open>GPG_ERR_INV_VALUE\<close> with the state untouched; havekey, passwd and keyinfo first call
  \<open>start_agent\<close>, return its error if the connection fails and \<open>GPG_ERR_INV_VALUE\<close>
  otherwise, and send no command line.
\<close>

theorem keygrip_length_checked:
  assumes "keygrip = None \<or> length (the keygrip) \<noteq> 40"
  shows "gpgsm_agent_pkdecrypt e w keygrip desc ciphertext = (Inl GPG_ERR_INV_VALUE, w)
         \<and> gpgsm_agent_havekey e w keygrip =
             (Some (case fst (start_agent e w) of Some err \<Rightarrow> err | None \<Rightarrow> GPG_ERR_INV_VALUE),
              snd (start_agent e w))
         \<and> gpgsm_agent_passwd e w keygrip desc =
             (Some (case fst (start_agent e w) of Some err \<Rightarrow> err | None \<Rightarrow> GPG_ERR_INV_VALUE),
              snd (start_agent e w))
         \<and> gpgsm_agent_keyinfo e w keygrip =
             (Inl (case fst (start_agent e w) of Some err \<Rightarrow> err | None \<Rightarrow> GPG_ERR_INV_VALUE),
              snd (start_agent e w))
         \<and> sent (snd (start_agent e w)) = sent w"
proof -
  obtain r w1 where sa: "start_agent e w = (r, w1)" by (cases "start_agent e w")
  have a: "gpgsm_agent_pkdecrypt e w keygrip desc ciphertext = (Inl GPG_ERR_INV_VALUE, w)"
    using assms by (cases keygrip; cases ciphertext) (simp_all add: gpgsm_agent_pkdecrypt_def)
  have b: "gpgsm_agent_havekey e w keygrip =
      (Some (case r of Some err \<Rightarrow> err | None \<Rightarrow> GPG_ERR_INV_VALUE), w1)"
    using assms sa by (cases keygrip; cases r) (simp_all add: gpgsm_agent_havekey_def)
  have c: "gpgsm_agent_passwd e w keygrip desc =
      (Some (case r of Some err \<Rightarrow> err | None \<Rightarrow> GPG_ERR_INV_VALUE), w1)"
    using assms sa by (cases keygrip; cases r) (simp_all add: gpgsm_agent_passwd_def)
  have d: "gpgsm_agent_keyinfo e w keygrip =
      (Inl (case r of Some err \<Rightarrow> err | None \<Rightarrow> GPG_ERR_INV_VALUE), w1)"
    using assms sa
    by (cases keygrip; cases r) (simp_all add: gpgsm_agent_keyinfo_def or_return_def)
  show ?thesis using a b c d sa start_agent_sent [of e w] by simp
qed

theorem keygrip_length_checked_witness:
  "gpgsm_agent_pkdecrypt quiet_env fresh_world (Some ''0123ABCD'') None (Some ''(3:abc)'') =
     (Inl GPG_ERR_INV_VALUE, fresh_world)
   \<and> fst (gpgsm_agent_havekey quiet_env fresh_world (Some ''0123ABCD'')) = Some GPG_ERR_INV_VALUE
   \<and> fst (gpgsm_agent_passwd quiet_env fresh_world (Some ''0123ABCD'') None) = Some GPG_ERR_INV_VALUE
   \<and> fst (gpgsm_agent_keyinfo quiet_env fresh_world (Some ''0123ABCD'')) = Inl GPG_ERR_INV_VALUE
   \<and> sent (snd (gpgsm_agent_havekey quiet_env fresh_world (Some ''0123ABCD''))) = []"
proof -
  have h: "Some ''0123ABCD'' = None \<or> length (the (Some ''0123ABCD'')) \<noteq> 40" by simp
  have s: "fst (start_agent quiet_env fresh_world) = None"
    by (simp add: start_agent_def quiet_env_def fresh_world_def)
  have f: "sent fresh_world = []" by (simp add: fresh_world_def)
  show ?thesis
    using keygrip_length_checked [OF h, where e = quiet_env and w = fresh_world
        and desc = None and ciphertext = "Some ''(3:abc)''"] s f
    by simp
qed

text \<open>
  A keygrip of 40 characters that are no hex digits is sent to the agent by havekey; with
  an agent that cannot be reached havekey returns the error of the connection attempt for
  a keygrip of 8 characters; sign sends a keygrip of 8 characters in its \<^verbatim>\<open>SIGKEY\<close> line.
\<close>

theorem keygrip_counterexample:
  "gpgsm_agent_havekey quiet_env fresh_world (Some (replicate 40 (CHR ''Z''))) =
     (None, fresh_world\<lparr>agent_ctx := True, connect_attempts := 1, agent_seen := True,
                        sent := [''HAVEKEY '' @ replicate 40 (CHR ''Z'')]\<rparr>)
   \<and> gpgsm_agent_havekey (quiet_env\<lparr>start_new_gpg_agent := Some GPG_ERR_NO_AGENT\<rparr>)
       fresh_world (Some ''0123ABCD'') =
     (Some GPG_ERR_NO_AGENT, fresh_world\<lparr>connect_attempts := 1, agent_seen := True\<rparr>)
   \<and> sent (snd (gpgsm_agent_pksign quiet_env fresh_world ''0123ABCD'' None
                   ''01234567890123456789'' GCRY_MD_SHA1)) =
     [''RESET'', ''SIGKEY 0123ABCD'',
      ''SETHASH 2 3031323334353637383930313233343536373839'', ''PKSIGN'']"
  by (simp add: gpgsm_agent_havekey_def gpgsm_agent_pksign_def or_return_def start_agent_def
        transact_plain_def assuan_transact_def setkeydesc_def snprintf_line_def
        ASSUAN_LINELENGTH_def quiet_env_def fresh_world_def GCRY_MD_SHA1_def dec_int_def
        dec_nat.simps hex_dump_def hex_byte_def digit_char_def get_membuf_def
        gcry_sexp_canon_len_def Let_def)

subsection \<open>The key pairs of the card\<close>


















lemma keypairinfo_entry_prefix: "\<exists>rest. args = keypairinfo_entry args @ rest"
proof (cases "dropWhile (\<lambda>c. \<not> spacep c) args = []")
  case True
  then have "keypairinfo_entry args = args" by (simp add: keypairinfo_entry_def Let_def)
  then have "args = keypairinfo_entry args @ []" by simp
  then show ?thesis ..
next
  case False
  let ?p = "dropWhile (\<lambda>c. \<not> spacep c) args"
  let ?q = "dropWhile spacep ?p"
  have "keypairinfo_entry args @ dropWhile (\<lambda>c. \<not> spacep c) ?q =
        takeWhile (\<lambda>c. \<not> spacep c) args @ takeWhile spacep ?p
        @ takeWhile (\<lambda>c. \<not> spacep c) ?q @ dropWhile (\<lambda>c. \<not> spacep c) ?q"
    using False by (simp add: keypairinfo_entry_def Let_def)
  also have "\<dots> = args" by (simp only: takeWhile_dropWhile_id)
  finally show ?thesis by (rule exI [of _ "dropWhile (\<lambda>c. \<not> spacep c) ?q", OF sym])
qed






end
